theory Spec2Isabelle
  imports Main
begin

section \<open>Atlas Air virtual airline: pilot ledger and flight-log lifecycle\<close>

text \<open>
  A shallow embedding of \<^verbatim>\<open>app.py\<close>: the two tables (\<^verbatim>\<open>Pilot\<close>, \<^verbatim>\<open>FlightLog\<close>), the
  string encoding of the owned-aircraft set, the shop catalogue and the routes that
  mutate the tables (\<^verbatim>\<open>purchase\<close>, \<^verbatim>\<open>add_flight_log\<close>, \<^verbatim>\<open>pause_flight\<close>,
  \<^verbatim>\<open>resume_flight\<close>, \<^verbatim>\<open>end_flight\<close>), with the \<^verbatim>\<open>before_request\<close> hook in front
  of them.

  Conventions of the model.
  \<^item> A table is a map from the primary key to the row; the key is not repeated in the row,
    so \<^verbatim>\<open>pilot.id\<close> is the key under which the pilot was found.
  \<^item> A Python \<^verbatim>\<open>str\<close> is a \<open>string\<close> whose characters are code points below 256.
  \<^item> \<^verbatim>\<open>datetime\<close> values are integers (seconds); \<^verbatim>\<open>datetime.utcnow()\<close> is an input of
    each request.
  \<^item> The Flask session is the value stored under \<^verbatim>\<open>'pilot_id'\<close>, or \<open>None\<close> when the
    key is absent.
  \<^item> Every raise and early return of a route is a branch of the model; a request that
    does not reach \<^verbatim>\<open>db.session.commit()\<close> leaves the database as it was.
  \<^item> The database is the default one, SQLite. An \<^verbatim>\<open>Integer\<close> column stores a signed
    64-bit integer: a commit that would write a value outside that range raises, the
    request is answered 500 and nothing is stored. \<^verbatim>\<open>end_flight\<close> writes a duration the
    client chooses and counters it increases, and its model has that branch;
    \<^verbatim>\<open>purchase\<close> writes a balance between 0 and the stored one, which fits when the stored
    one does, and the other routes write no integer of their own.
    The length limits of \<^verbatim>\<open>String(n)\<close> columns, which SQLite does not enforce, are not
    modelled.
\<close>

subsection \<open>Tables\<close>

type_synonym datetime = int

record pilot =
  username :: string
  password_hash :: string
  name :: string
  callsign :: string
  rank :: string
  balance :: int
  hours :: int
  completed_flights :: int
  aircraft_owned :: string
  cargo_delivered :: int
  pilot_status :: string
  pilot_created_at :: datetime

record flight_log =
  pilot_id :: int
  flight_number :: string
  aircraft_type :: string
  departure_airport :: string
  arrival_airport :: string
  cargo_type :: string
  departure_time :: datetime
  flight_duration :: int
  status :: string
  created_at :: datetime
  completed_at :: "datetime option"

text \<open>
  \<open>log_seq\<close> is the highest \<^verbatim>\<open>FlightLog.id\<close> handed out so far: the integer primary key
  of a new row is the next one (rows are never deleted).
\<close>

record db =
  pilots :: "int \<rightharpoonup> pilot"
  logs :: "int \<rightharpoonup> flight_log"
  log_seq :: int

type_synonym session = "int option"

subsection \<open>Strings: \<^verbatim>\<open>str.strip\<close>, \<^verbatim>\<open>str.split(',')\<close>, \<^verbatim>\<open>', '.join\<close>\<close>

text \<open>Python's whitespace among the code points below 256 (\<^verbatim>\<open>str.isspace\<close>).\<close>

definition is_space :: "char \<Rightarrow> bool" where
  "is_space c \<longleftrightarrow>
     c \<in> set [CHR 0x09, CHR 0x0A, CHR 0x0B, CHR 0x0C, CHR 0x0D,
              CHR 0x1C, CHR 0x1D, CHR 0x1E, CHR 0x1F, CHR 0x20, CHR 0x85, CHR 0xA0]"

definition strip :: "string \<Rightarrow> string" where
  "strip s = rev (dropWhile is_space (rev (dropWhile is_space s)))"

text \<open>
  \<^verbatim>\<open>s.split(sep)\<close> for a one-character separator: the pieces between the separators,
  empty pieces kept, \<^verbatim>\<open>''.split(',') == ['']\<close>.
\<close>

fun split :: "char \<Rightarrow> string \<Rightarrow> string list" where
  "split sep [] = [[]]"
| "split sep (c # cs) =
     (if c = sep then [] # split sep cs
      else (case split sep cs of [] \<Rightarrow> [[c]] | w # ws \<Rightarrow> (c # w) # ws))"

fun join :: "string \<Rightarrow> string list \<Rightarrow> string" where
  "join sep [] = []"
| "join sep [x] = x"
| "join sep (x # y # ys) = x @ sep @ join sep (y # ys)"

text \<open>
  \<^verbatim>\<open>str.upper\<close> on ASCII letters; other characters are left as they are (airport
  codes outside ASCII are not covered by the model).
\<close>

definition upper_char :: "char \<Rightarrow> char" where
  "upper_char c =
     (if 97 \<le> (of_char c :: nat) \<and> (of_char c :: nat) \<le> 122
      then char_of ((of_char c :: nat) - 32) else c)"

definition upper :: "string \<Rightarrow> string" where
  "upper s = map upper_char s"

subsection \<open>The owned-aircraft set of a pilot\<close>

definition get_aircraft_list :: "pilot \<Rightarrow> string list" where
  "get_aircraft_list p =
     (if aircraft_owned p \<noteq> []
      then map strip (filter (\<lambda>item. strip item \<noteq> []) (split CHR '','' (aircraft_owned p)))
      else [])"

definition add_aircraft :: "pilot \<Rightarrow> string \<Rightarrow> pilot" where
  "add_aircraft p aircraft_id =
     (let current_aircraft = get_aircraft_list p
      in if aircraft_id \<notin> set current_aircraft
         then p\<lparr>aircraft_owned := join '', '' (current_aircraft @ [aircraft_id])\<rparr>
         else p)"

subsection \<open>The shop catalogue\<close>

record shop_item =
  item_id :: string
  item_name :: string
  price :: int

definition SHOP_ITEMS :: "(string \<times> shop_item list) list" where
  "SHOP_ITEMS =
   [(''aircraft'',
     [\<lparr>item_id = ''boeing_767'', item_name = ''Boeing 767-300F'', price = 25000\<rparr>,
      \<lparr>item_id = ''boeing_777'', item_name = ''Boeing 777F'', price = 35000\<rparr>,
      \<lparr>item_id = ''airbus_a330'', item_name = ''Airbus A330-200F'', price = 32000\<rparr>,
      \<lparr>item_id = ''boeing_747'', item_name = ''Boeing 747-8F'', price = 45000\<rparr>]),
    (''roles'',
     [\<lparr>item_id = ''first_officer'', item_name = ''First Officer Certification'', price = 5000\<rparr>,
      \<lparr>item_id = ''captain'', item_name = ''Captain Certification'', price = 12000\<rparr>,
      \<lparr>item_id = ''check_airman'', item_name = ''Check Airman Certification'', price = 20000\<rparr>]),
    (''missions'',
     [\<lparr>item_id = ''cargo_express'', item_name = ''Express Cargo Mission'', price = 2500\<rparr>,
      \<lparr>item_id = ''international_freight'', item_name = ''International Freight Route'', price = 4000\<rparr>,
      \<lparr>item_id = ''emergency_medical'', item_name = ''Emergency Medical Transport'', price = 6000\<rparr>])]"

text \<open>
  The two nested loops of \<^verbatim>\<open>purchase\<close>: the first item, in catalogue order, whose id is
  the one asked for.
\<close>

fun find_in_category :: "shop_item list \<Rightarrow> string \<Rightarrow> shop_item option" where
  "find_in_category [] i = None"
| "find_in_category (shop_item # rest) i =
     (if item_id shop_item = i then Some shop_item else find_in_category rest i)"

fun find_in_shop :: "(string \<times> shop_item list) list \<Rightarrow> string \<Rightarrow> shop_item option" where
  "find_in_shop [] i = None"
| "find_in_shop ((cat, items) # rest) i =
     (case find_in_category items i of
        Some item \<Rightarrow> Some item
      | None \<Rightarrow> find_in_shop rest i)"

definition find_item :: "string \<Rightarrow> shop_item option" where
  "find_item i = find_in_shop SHOP_ITEMS i"

subsection \<open>Responses\<close>

datatype flash =
    Item_not_found
  | Already_own string
  | Insufficient_funds int int
  | Purchased string int
  | Flight_number_format
  | Flight_log_created
  | Error_adding_flight_log

datatype response =
    Redirect_login
  | Redirect_shop flash
  | Redirect_add_flight_log flash
  | Redirect_flight_tracker int flash
  | Render_add_flight_log flash
  | Unauthorized_401
  | Not_found_404
  | Internal_error_500
  | Paused_json
  | Resumed_json
  | Completed_json int int int

subsection \<open>The \<^verbatim>\<open>before_request\<close> hook\<close>

definition clear_invalid_sessions :: "db \<Rightarrow> session \<Rightarrow> session" where
  "clear_invalid_sessions d s =
     (case s of
        None \<Rightarrow> None
      | Some pid \<Rightarrow> (case pilots d pid of None \<Rightarrow> None | Some p \<Rightarrow> Some pid))"

subsection \<open>Purchase\<close>

definition purchase :: "db \<Rightarrow> session \<Rightarrow> string \<Rightarrow> response \<times> db" where
  "purchase d s i =
     (case s of
        None \<Rightarrow> (Redirect_login, d)
      | Some pid \<Rightarrow>
          (case pilots d pid of
             None \<Rightarrow> (case find_item i of
                         None \<Rightarrow> (Redirect_shop Item_not_found, d)
                       | Some item \<Rightarrow> (Internal_error_500, d))
           | Some p \<Rightarrow>
               (case find_item i of
                  None \<Rightarrow> (Redirect_shop Item_not_found, d)
                | Some item \<Rightarrow>
                    if i \<in> set (get_aircraft_list p)
                    then (Redirect_shop (Already_own (item_name item)), d)
                    else if balance p < price item
                    then (Redirect_shop (Insufficient_funds (price item) (balance p)), d)
                    else (Redirect_shop (Purchased (item_name item) (price item)),
                          d\<lparr>pilots := (pilots d)
                               (pid \<mapsto> add_aircraft (p\<lparr>balance := balance p - price item\<rparr>) i)\<rparr>))))"

subsection \<open>Flight-log creation\<close>

text \<open>
  The POST form of \<^verbatim>\<open>add_flight_log\<close>. A field read with \<^verbatim>\<open>request.form.get(key)\<close> is
  \<open>None\<close> when the form lacks it. \<open>form_departure_time\<close> is the value of
  \<^verbatim>\<open>datetime.fromisoformat(request.form.get('departure_time'))\<close>, \<open>None\<close> when that
  call raises (a malformed or missing string).
\<close>

record form =
  form_flight_number :: "string option"
  form_aircraft_type :: "string option"
  form_departure_airport :: "string option"
  form_arrival_airport :: "string option"
  form_cargo_type :: "string option"
  form_departure_time :: "datetime option"

definition startswith :: "string \<Rightarrow> string \<Rightarrow> bool" where
  "startswith s pre \<longleftrightarrow> take (length pre) s = pre"

text \<open>
  Everything between \<^verbatim>\<open>try\<close> and \<^verbatim>\<open>except Exception\<close>: calling \<^verbatim>\<open>startswith\<close> on a
  missing flight number raises, a malformed departure time raises, and the commit raises
  when a \<^verbatim>\<open>nullable=False\<close> column is \<^verbatim>\<open>None\<close>; each lands in the handler, which flashes
  the error and renders the form again.
\<close>

definition add_flight_log :: "db \<Rightarrow> session \<Rightarrow> datetime \<Rightarrow> form \<Rightarrow> response \<times> db" where
  "add_flight_log d s now f =
     (case s of
        None \<Rightarrow> (Redirect_login, d)
      | Some pid \<Rightarrow>
          (case form_flight_number f of
             None \<Rightarrow> (Render_add_flight_log Error_adding_flight_log, d)
           | Some fn \<Rightarrow>
               if \<not> startswith fn ''GTI_'' \<or> length fn < 5
               then (Redirect_add_flight_log Flight_number_format, d)
               else
                 (case (form_departure_time f, pilots d pid,
                        form_aircraft_type f, form_cargo_type f) of
                    (Some dep, Some p, Some ac, Some cargo) \<Rightarrow>
                      let new_id = log_seq d + 1;
                          new_log = \<lparr>pilot_id = pid,
                                     flight_number = fn,
                                     aircraft_type = ac,
                                     departure_airport =
                                       upper (case form_departure_airport f of None \<Rightarrow> [] | Some a \<Rightarrow> a),
                                     arrival_airport =
                                       upper (case form_arrival_airport f of None \<Rightarrow> [] | Some a \<Rightarrow> a),
                                     cargo_type = cargo,
                                     departure_time = dep,
                                     flight_duration = 0,
                                     status = ''In Progress'',
                                     created_at = now,
                                     completed_at = None\<rparr>
                      in (Redirect_flight_tracker new_id Flight_log_created,
                          d\<lparr>logs := (logs d)(new_id \<mapsto> new_log), log_seq := new_id\<rparr>)
                  | _ \<Rightarrow> (Render_add_flight_log Error_adding_flight_log, d))))"

subsection \<open>The flight timer: pause, resume, end\<close>

definition pause_flight :: "db \<Rightarrow> session \<Rightarrow> int \<Rightarrow> response \<times> db" where
  "pause_flight d s log_id =
     (case s of
        None \<Rightarrow> (Unauthorized_401, d)
      | Some pid \<Rightarrow>
          (case logs d log_id of
             None \<Rightarrow> (Not_found_404, d)
           | Some flight_log \<Rightarrow>
               if pilot_id flight_log \<noteq> pid then (Unauthorized_401, d)
               else (Paused_json,
                     d\<lparr>logs := (logs d)(log_id \<mapsto> flight_log\<lparr>status := ''Paused''\<rparr>)\<rparr>)))"

definition resume_flight :: "db \<Rightarrow> session \<Rightarrow> int \<Rightarrow> response \<times> db" where
  "resume_flight d s log_id =
     (case s of
        None \<Rightarrow> (Unauthorized_401, d)
      | Some pid \<Rightarrow>
          (case logs d log_id of
             None \<Rightarrow> (Not_found_404, d)
           | Some flight_log \<Rightarrow>
               if pilot_id flight_log \<noteq> pid then (Unauthorized_401, d)
               else (Resumed_json,
                     d\<lparr>logs := (logs d)(log_id \<mapsto> flight_log\<lparr>status := ''In Progress''\<rparr>)\<rparr>)))"

text \<open>
  The values an \<^verbatim>\<open>Integer\<close> column can store, and the pilots whose four ledger columns
  can be stored.
\<close>

definition fits_integer_column :: "int \<Rightarrow> bool" where
  "fits_integer_column n \<longleftrightarrow> - (2 ^ 63) \<le> n \<and> n < 2 ^ 63"

definition pilot_fits :: "pilot \<Rightarrow> bool" where
  "pilot_fits p \<longleftrightarrow>
     fits_integer_column (hours p) \<and> fits_integer_column (completed_flights p)
     \<and> fits_integer_column (cargo_delivered p) \<and> fits_integer_column (balance p)"

text \<open>
  \<^verbatim>\<open>int(flight_duration_seconds / 3600)\<close>: Python divides to a float and \<^verbatim>\<open>int\<close>
  truncates it toward zero. For an integer duration of magnitude below \<open>2 ^ 53\<close> the
  float quotient truncates to the same integer as the exact quotient, which is what the
  model computes; for larger magnitudes the float quotient is rounded and the model is
  not exact.
\<close>

definition int_flight_hours :: "int \<Rightarrow> int" where
  "int_flight_hours flight_duration_seconds =
     (if 0 \<le> flight_duration_seconds then flight_duration_seconds div 3600
      else - ((- flight_duration_seconds) div 3600))"

text \<open>
  The body of the request is the JSON object read by \<^verbatim>\<open>request.get_json()\<close>; the
  argument \<open>duration\<close> is its integer value under \<^verbatim>\<open>'duration'\<close>, \<open>None\<close> when the key is
  absent (\<^verbatim>\<open>data.get('duration', 0)\<close>). Values that are not integers are outside the
  model, and so is the float \<^verbatim>\<open>duration_hours\<close> of the response, which is shown and
  not stored. The response keeps \<^verbatim>\<open>hours_added\<close>, \<^verbatim>\<open>cargo_added\<close> and
  \<^verbatim>\<open>money_earned\<close>.

  The commit writes the log's \<^verbatim>\<open>flight_duration\<close> and the pilot's four counters. When
  one of them does not fit the column the commit raises: the answer is 500 and neither
  row is changed.
\<close>

definition end_flight :: "db \<Rightarrow> session \<Rightarrow> datetime \<Rightarrow> int \<Rightarrow> int option \<Rightarrow> response \<times> db" where
  "end_flight d s now log_id duration =
     (case s of
        None \<Rightarrow> (Unauthorized_401, d)
      | Some pid \<Rightarrow>
          (case logs d log_id of
             None \<Rightarrow> (Not_found_404, d)
           | Some flight_log \<Rightarrow>
               (case pilots d pid of
                  None \<Rightarrow> (Internal_error_500, d)
                | Some pilot \<Rightarrow>
                    if pilot_id flight_log \<noteq> pid then (Unauthorized_401, d)
                    else
                      let flight_duration_seconds = (case duration of None \<Rightarrow> 0 | Some n \<Rightarrow> n);
                          flight_log' = flight_log\<lparr>status := ''Completed'',
                                                   flight_duration := flight_duration_seconds,
                                                   completed_at := Some now\<rparr>;
                          pilot' = pilot\<lparr>hours := hours pilot + int_flight_hours flight_duration_seconds,
                                         completed_flights := completed_flights pilot + 1,
                                         cargo_delivered := cargo_delivered pilot + 50,
                                         balance := balance pilot + 50\<rparr>
                      in if fits_integer_column flight_duration_seconds \<and> pilot_fits pilot'
                         then (Completed_json (int_flight_hours flight_duration_seconds) 50 50,
                               d\<lparr>pilots := (pilots d)(pid \<mapsto> pilot'),
                                 logs := (logs d)(log_id \<mapsto> flight_log')\<rparr>)
                         else (Internal_error_500, d))))"

subsection \<open>Requests\<close>

text \<open>
  A request carries the client's session cookie and the server's clock. The hook runs
  first, then the route. \<open>run\<close> serves a list of requests in order.
\<close>

datatype route =
    Purchase string
  | Add_flight_log form
  | Pause int
  | Resume int
  | End int "int option"

fun dispatch_request :: "db \<Rightarrow> session \<times> datetime \<times> route \<Rightarrow> response \<times> db" where
  "dispatch_request d (s, now, Purchase i) = purchase d (clear_invalid_sessions d s) i"
| "dispatch_request d (s, now, Add_flight_log f) = add_flight_log d (clear_invalid_sessions d s) now f"
| "dispatch_request d (s, now, Pause log_id) = pause_flight d (clear_invalid_sessions d s) log_id"
| "dispatch_request d (s, now, Resume log_id) = resume_flight d (clear_invalid_sessions d s) log_id"
| "dispatch_request d (s, now, End log_id duration) =
     end_flight d (clear_invalid_sessions d s) now log_id duration"

fun run :: "db \<Rightarrow> (session \<times> datetime \<times> route) list \<Rightarrow> db" where
  "run d [] = d"
| "run d (r # rs) = run (snd (dispatch_request d r)) rs"

text \<open>
  The database right after start-up: the seeded pilot \<^verbatim>\<open>pilot001\<close> under key 1 and no
  flight log. The password hash and the creation time are left open.
\<close>

definition sample_pilot :: pilot where
  "sample_pilot =
     \<lparr>username = ''pilot001'', password_hash = [], name = ''Captain John Smith'',
      callsign = ''ATLAS001'', rank = ''Captain'', balance = 45000, hours = 0,
      completed_flights = 0, aircraft_owned = ''boeing_767, boeing_777'',
      cargo_delivered = 0, pilot_status = ''Active'', pilot_created_at = 0\<rparr>"

definition initial_db :: db where
  "initial_db = \<lparr>pilots = [1 \<mapsto> sample_pilot], logs = Map.empty, log_seq = 0\<rparr>"

text \<open>
  Test data: a well-formed form, the database after the seeded pilot has created a flight
  log from it (\<open>tracked_db\<close>), and that log.
\<close>

definition sample_form :: form where
  "sample_form =
     \<lparr>form_flight_number = Some ''GTI_42'', form_aircraft_type = Some ''747-8F'',
      form_departure_airport = Some ''kjfk'', form_arrival_airport = Some ''egll'',
      form_cargo_type = Some ''General Freight'', form_departure_time = Some 100\<rparr>"

definition tracked_db :: db where
  "tracked_db = snd (dispatch_request initial_db (Some 1, 5, Add_flight_log sample_form))"

definition tracked_log :: flight_log where
  "tracked_log =
     \<lparr>pilot_id = 1, flight_number = ''GTI_42'', aircraft_type = ''747-8F'',
      departure_airport = ''KJFK'', arrival_airport = ''EGLL'',
      cargo_type = ''General Freight'', departure_time = 100, flight_duration = 0,
      status = ''In Progress'', created_at = 5, completed_at = None\<rparr>"

text \<open>
  The same database with a second pilot under key 2, who owns no flight log, for the
  requests on somebody else's log.
\<close>

definition second_pilot :: pilot where
  "second_pilot =
     \<lparr>username = ''pilot002'', password_hash = [], name = ''First Officer Jane Doe'',
      callsign = ''ATLAS002'', rank = ''First Officer'', balance = 25000, hours = 0,
      completed_flights = 0, aircraft_owned = [], cargo_delivered = 0,
      pilot_status = ''Active'', pilot_created_at = 0\<rparr>"

definition two_pilot_db :: db where
  "two_pilot_db = tracked_db\<lparr>pilots := (pilots tracked_db)(2 \<mapsto> second_pilot)\<rparr>"

text \<open>A pilot who cannot afford the most expensive aircraft, for the purchase examples.\<close>

definition poor_db :: db where
  "poor_db = initial_db\<lparr>pilots := [1 \<mapsto> sample_pilot\<lparr>balance := 44999\<rparr>]\<rparr>"

subsection \<open>Predicates used in the statements\<close>

text \<open>
  An aircraft id that the comma-separated encoding gives back as it is: not empty, without
  a comma, and without whitespace at either end (\<^verbatim>\<open>id.strip() == id\<close>).
\<close>

definition clean :: "string \<Rightarrow> bool" where
  "clean x \<longleftrightarrow> x \<noteq> [] \<and> CHR '','' \<notin> set x \<and> strip x = x"

text \<open>Requests to the \<^verbatim>\<open>end\<close> route, and the duration such a request reports.\<close>

fun end_request :: "session \<times> datetime \<times> route \<Rightarrow> bool" where
  "end_request (s, now, End log_id duration) = True"
| "end_request (s, now, r) = False"

fun reported_duration :: "session \<times> datetime \<times> route \<Rightarrow> int" where
  "reported_duration (s, now, End log_id (Some n)) = n"
| "reported_duration (s, now, r) = 0"

text \<open>
  The pattern of the data model as the specification words it: \<^verbatim>\<open>GTI_\<close> followed by
  digits (at least one). It is not taken from the code; the code's check is in
  \<open>add_flight_log\<close>.
\<close>

definition is_digit :: "char \<Rightarrow> bool" where
  "is_digit c \<longleftrightarrow> c \<in> set ''0123456789''"

definition spec_gti_digits :: "string \<Rightarrow> bool" where
  "spec_gti_digits fn \<longleftrightarrow>
     startswith fn ''GTI_'' \<and> drop 4 fn \<noteq> [] \<and> list_all is_digit (drop 4 fn)"

text \<open>Two properties of a database: of every stored flight log.\<close>

definition completed_has_time :: "db \<Rightarrow> bool" where
  "completed_has_time d \<longleftrightarrow>
     (\<forall>lid l. logs d lid = Some l \<longrightarrow> status l = ''Completed'' \<longrightarrow> completed_at l \<noteq> None)"

definition flight_numbers_checked :: "db \<Rightarrow> bool" where
  "flight_numbers_checked d \<longleftrightarrow>
     (\<forall>lid l. logs d lid = Some l \<longrightarrow>
        startswith (flight_number l) ''GTI_'' \<and> 5 \<le> length (flight_number l))"

section \<open>Properties\<close>

subsection \<open>What an authorized timer request does\<close>

text \<open>
  A request is authorized when its session names an existing pilot and the log it
  addresses belongs to that pilot. The three equations below are the routes with the
  hook, the session check, the lookup and the ownership check discharged.
\<close>

lemma end_authorized:
  assumes "pilots d pid = Some p" and "logs d lid = Some l" and "pilot_id l = pid"
  shows "dispatch_request d (Some pid, now, End lid duration) =
     (if fits_integer_column (case duration of None \<Rightarrow> 0 | Some n \<Rightarrow> n)
         \<and> pilot_fits
           (p\<lparr>hours := hours p + int_flight_hours (case duration of None \<Rightarrow> 0 | Some n \<Rightarrow> n),
              completed_flights := completed_flights p + 1,
              cargo_delivered := cargo_delivered p + 50,
              balance := balance p + 50\<rparr>)
      then
       (Completed_json (int_flight_hours (case duration of None \<Rightarrow> 0 | Some n \<Rightarrow> n)) 50 50,
        d\<lparr>pilots := (pilots d)(pid \<mapsto>
              p\<lparr>hours := hours p + int_flight_hours (case duration of None \<Rightarrow> 0 | Some n \<Rightarrow> n),
                completed_flights := completed_flights p + 1,
                cargo_delivered := cargo_delivered p + 50,
                balance := balance p + 50\<rparr>),
           logs := (logs d)(lid \<mapsto>
              l\<lparr>status := ''Completed'',
                flight_duration := (case duration of None \<Rightarrow> 0 | Some n \<Rightarrow> n),
                completed_at := Some now\<rparr>)\<rparr>)
      else (Internal_error_500, d))"
  using assms by (simp add: end_flight_def clear_invalid_sessions_def Let_def)

lemma pause_authorized:
  assumes "pilots d pid = Some p" and "logs d lid = Some l" and "pilot_id l = pid"
  shows "dispatch_request d (Some pid, now, Pause lid) =
     (Paused_json, d\<lparr>logs := (logs d)(lid \<mapsto> l\<lparr>status := ''Paused''\<rparr>)\<rparr>)"
  using assms by (simp add: pause_flight_def clear_invalid_sessions_def)

lemma resume_authorized:
  assumes "pilots d pid = Some p" and "logs d lid = Some l" and "pilot_id l = pid"
  shows "dispatch_request d (Some pid, now, Resume lid) =
     (Resumed_json, d\<lparr>logs := (logs d)(lid \<mapsto> l\<lparr>status := ''In Progress''\<rparr>)\<rparr>)"
  using assms by (simp add: resume_flight_def clear_invalid_sessions_def)

lemma upper_sample_airports: "upper ''kjfk'' = ''KJFK''" "upper ''egll'' = ''EGLL''"
  by code_simp+

lemma tracked_db_eq:
  "tracked_db = \<lparr>pilots = [1 \<mapsto> sample_pilot], logs = [1 \<mapsto> tracked_log], log_seq = 1\<rparr>"
  by (simp add: tracked_db_def initial_db_def sample_form_def add_flight_log_def
      tracked_log_def clear_invalid_sessions_def startswith_def upper_sample_airports)

lemma tracked_db_log: "logs tracked_db 1 = Some tracked_log"
  by (simp add: tracked_db_eq)

lemma tracked_db_pilot: "pilots tracked_db 1 = Some sample_pilot"
  by (simp add: tracked_db_eq)

lemma tracked_log_owner: "pilot_id tracked_log = 1"
  by (simp add: tracked_log_def)

lemma sample_pilot_ledger:
  "hours sample_pilot = 0" "completed_flights sample_pilot = 0"
  "cargo_delivered sample_pilot = 0" "balance sample_pilot = 45000"
  by (simp_all add: sample_pilot_def)

lemma two_pilot_db_eq:
  "two_pilot_db = \<lparr>pilots = [1 \<mapsto> sample_pilot, 2 \<mapsto> second_pilot],
                    logs = [1 \<mapsto> tracked_log], log_seq = 1\<rparr>"
  by (simp add: two_pilot_db_def tracked_db_eq)

declare dispatch_request.simps [simp del]

subsection \<open>The ledger reward of a completed flight\<close>

text \<open>
  C1 (as amended). For every authorized \<^verbatim>\<open>end\<close> request whose reported duration \<open>n\<close> is
  a non-negative integer (below \<open>2 ^ 53\<close>, where the float quotient is exact enough) and
  whose updated counters fit the \<^verbatim>\<open>Integer\<close> column, the response reports
  \<open>hours_added = floor (n / 3600)\<close>, \<open>cargo_added = 50\<close>, \<open>money_earned = 50\<close>; the owning
  pilot's hours grow by \<open>floor (n / 3600)\<close>, cargo and balance by 50 each, completed
  flights by 1; the log becomes Completed with \<open>flight_duration = n\<close>. (\<open>div\<close> on \<open>int\<close>
  is the floor of the quotient.)
\<close>

theorem end_flight_reward:
  assumes "pilots d pid = Some p" and "logs d lid = Some l" and "pilot_id l = pid"
    and "0 \<le> n" and "n < 2 ^ 53"
    and "fits_integer_column (hours p + n div 3600)"
    and "fits_integer_column (completed_flights p + 1)"
    and "fits_integer_column (cargo_delivered p + 50)"
    and "fits_integer_column (balance p + 50)"
  shows "\<exists>d' p' l'. dispatch_request d (Some pid, now, End lid (Some n)) =
             (Completed_json (n div 3600) 50 50, d')
           \<and> pilots d' pid = Some p' \<and> logs d' lid = Some l'
           \<and> hours p' = hours p + n div 3600
           \<and> cargo_delivered p' = cargo_delivered p + 50
           \<and> balance p' = balance p + 50
           \<and> completed_flights p' = completed_flights p + 1
           \<and> status l' = ''Completed'' \<and> flight_duration l' = n"
proof -
  from assms(4,5) have "fits_integer_column n"
    by (simp add: fits_integer_column_def)
  with assms show ?thesis
    by (simp add: end_authorized int_flight_hours_def pilot_fits_def)
qed

theorem end_flight_reward_witness:
  "fst (dispatch_request tracked_db (Some 1, 9, End 1 (Some 3600))) = Completed_json 1 50 50
   \<and> fst (dispatch_request tracked_db (Some 1, 9, End 1 (Some 5399))) = Completed_json 1 50 50"
proof -
  have f: "fits_integer_column (hours sample_pilot + 3600 div 3600)"
    "fits_integer_column (hours sample_pilot + 5399 div 3600)"
    "fits_integer_column (completed_flights sample_pilot + 1)"
    "fits_integer_column (cargo_delivered sample_pilot + 50)"
    "fits_integer_column (balance sample_pilot + 50)"
    by (simp_all add: fits_integer_column_def sample_pilot_ledger)
  have "(0::int) \<le> 3600" and "(3600::int) < 2 ^ 53" by simp_all
  from end_flight_reward [OF tracked_db_pilot tracked_db_log tracked_log_owner this
      f(1) f(3) f(4) f(5), of 9]
  have a: "fst (dispatch_request tracked_db (Some 1, 9, End 1 (Some 3600))) = Completed_json 1 50 50"
    by auto
  have "(0::int) \<le> 5399" and "(5399::int) < 2 ^ 53" by simp_all
  from end_flight_reward [OF tracked_db_pilot tracked_db_log tracked_log_owner this
      f(2) f(3) f(4) f(5), of 9]
  have b: "fst (dispatch_request tracked_db (Some 1, 9, End 1 (Some 5399))) = Completed_json 1 50 50"
    by auto
  from a b show ?thesis by simp
qed

text \<open>
  The claim as first stated covers every reported duration. At the duration \<open>-1\<close> the
  floor of the quotient is \<open>-1\<close>, while the route truncates toward zero: it reports
  \<open>hours_added = 0\<close> and leaves the pilot's hours as they were.
\<close>

theorem end_flight_negative_duration:
  "fst (dispatch_request tracked_db (Some 1, 9, End 1 (Some (- 1)))) = Completed_json 0 50 50
   \<and> (- 1 :: int) div 3600 = - 1
   \<and> map_option hours
        (pilots (snd (dispatch_request tracked_db (Some 1, 9, End 1 (Some (- 1))))) 1)
       = Some (hours sample_pilot)"
  by (simp add: end_authorized [OF tracked_db_pilot tracked_db_log tracked_log_owner]
      int_flight_hours_def pilot_fits_def fits_integer_column_def sample_pilot_ledger)

subsection \<open>Ending a flight twice\<close>



text \<open>
  Beyond the column the commit fails: two \<^verbatim>\<open>end\<close> requests reporting \<open>2 ^ 63\<close> seconds
  are both answered 500 and credit nothing.
\<close>

lemma end_beyond_column:
  "fst (dispatch_request tracked_db (Some 1, 9, End 1 (Some (2 ^ 63)))) = Internal_error_500
   \<and> run tracked_db [(Some 1, 9, End 1 (Some (2 ^ 63))), (Some 1, 10, End 1 (Some (2 ^ 63)))]
       = tracked_db"
  by (simp add: end_authorized [OF tracked_db_pilot tracked_db_log tracked_log_owner]
      fits_integer_column_def)

subsection \<open>Requests on another pilot's log\<close>

text \<open>
  C7. A \<^verbatim>\<open>pause\<close>, \<^verbatim>\<open>resume\<close> or \<^verbatim>\<open>end\<close> request on an existing log whose owner is not
  the session's pilot (also when there is no session, or the session names no pilot) is
  answered with 401 and leaves the whole database, every flight log and every pilot, as
  it was. The example after it is a request of an existing second pilot, whose session
  the hook keeps, on the first pilot's log; the same request of the owner is served.
\<close>

theorem unauthorized_no_mutation:
  assumes "logs d lid = Some l" and "s \<noteq> Some (pilot_id l)"
  shows "dispatch_request d (s, now, Pause lid) = (Unauthorized_401, d)
       \<and> dispatch_request d (s, now, Resume lid) = (Unauthorized_401, d)
       \<and> dispatch_request d (s, now, End lid duration) = (Unauthorized_401, d)"
  using assms
  by (auto simp add: dispatch_request.simps pause_flight_def resume_flight_def end_flight_def
      clear_invalid_sessions_def split: option.splits)

theorem unauthorized_no_mutation_witness:
  "clear_invalid_sessions two_pilot_db (Some 2) = Some 2
   \<and> dispatch_request two_pilot_db (Some 2, 9, Pause 1) = (Unauthorized_401, two_pilot_db)
   \<and> dispatch_request two_pilot_db (Some 2, 9, Resume 1) = (Unauthorized_401, two_pilot_db)
   \<and> dispatch_request two_pilot_db (Some 2, 9, End 1 (Some 3600))
       = (Unauthorized_401, two_pilot_db)
   \<and> fst (dispatch_request two_pilot_db (Some 1, 9, Pause 1)) = Paused_json"
proof -
  have l: "logs two_pilot_db 1 = Some tracked_log" by (simp add: two_pilot_db_eq)
  have s: "Some (2::int) \<noteq> Some (pilot_id tracked_log)" by (simp add: tracked_log_def)
  have h: "clear_invalid_sessions two_pilot_db (Some 2) = Some 2"
    by (simp add: clear_invalid_sessions_def two_pilot_db_eq)
  have p: "pilots two_pilot_db 1 = Some sample_pilot" by (simp add: two_pilot_db_eq)
  have o: "fst (dispatch_request two_pilot_db (Some 1, 9, Pause 1)) = Paused_json"
    by (simp add: pause_authorized [OF p l tracked_log_owner])
  from unauthorized_no_mutation [OF l s, of 9 "Some 3600"] h o
  show ?thesis by simp
qed

subsection \<open>The frame of pause and resume\<close>

text \<open>
  C9. An authorized \<^verbatim>\<open>pause\<close> or \<^verbatim>\<open>resume\<close> request changes nothing but the status
  of the log it addresses: the log's flight number, duration, completion and creation
  times, departure and arrival fields, aircraft, cargo and owner are unchanged, every
  other log is unchanged, and so is every pilot.
\<close>

theorem pause_resume_frame:
  assumes "pilots d pid = Some p" and "logs d lid = Some l" and "pilot_id l = pid"
    and "r = Pause lid \<or> r = Resume lid"
  shows "\<exists>l'. logs (snd (dispatch_request d (Some pid, now, r))) = (logs d)(lid \<mapsto> l')
      \<and> flight_number l' = flight_number l
      \<and> flight_duration l' = flight_duration l
      \<and> completed_at l' = completed_at l
      \<and> created_at l' = created_at l
      \<and> departure_airport l' = departure_airport l
      \<and> departure_time l' = departure_time l
      \<and> arrival_airport l' = arrival_airport l
      \<and> aircraft_type l' = aircraft_type l
      \<and> cargo_type l' = cargo_type l
      \<and> pilot_id l' = pilot_id l
      \<and> pilots (snd (dispatch_request d (Some pid, now, r))) = pilots d"
  using assms by (auto simp add: pause_authorized resume_authorized)

theorem pause_resume_frame_witness:
  "logs (snd (dispatch_request tracked_db (Some 1, 9, Pause 1))) 1
     = Some (tracked_log\<lparr>status := ''Paused''\<rparr>)
   \<and> pilots (snd (dispatch_request tracked_db (Some 1, 9, Pause 1))) = pilots tracked_db
   \<and> pilots (snd (dispatch_request tracked_db (Some 1, 9, Resume 1))) = pilots tracked_db"
proof -
  from pause_resume_frame [OF tracked_db_pilot tracked_db_log tracked_log_owner, of "Pause 1" 9]
  have a: "pilots (snd (dispatch_request tracked_db (Some 1, 9, Pause 1))) = pilots tracked_db"
    by auto
  from pause_resume_frame [OF tracked_db_pilot tracked_db_log tracked_log_owner, of "Resume 1" 9]
  have b: "pilots (snd (dispatch_request tracked_db (Some 1, 9, Resume 1))) = pilots tracked_db"
    by auto
  have c: "logs (snd (dispatch_request tracked_db (Some 1, 9, Pause 1))) 1
     = Some (tracked_log\<lparr>status := ''Paused''\<rparr>)"
    by (simp add: pause_authorized [OF tracked_db_pilot tracked_db_log tracked_log_owner])
  from a b c show ?thesis by simp
qed

subsection \<open>Splitting, joining and stripping\<close>

lemma split_not_Nil: "split sep s \<noteq> []"
  by (induction s) (auto split: list.splits)

lemma split_no_sep: "sep \<notin> set x \<Longrightarrow> split sep x = [x]"
  by (induction x) auto

lemma split_append_sep: "sep \<notin> set x \<Longrightarrow> split sep (x @ sep # r) = x # split sep r"
  by (induction x) auto

lemma split_pieces_no_sep: "w \<in> set (split sep s) \<Longrightarrow> sep \<notin> set w"
  by (induction s arbitrary: w) (auto split: if_splits list.splits)

lemma set_strip: "set (strip s) \<subseteq> set s"
  by (auto simp add: strip_def dest!: set_dropWhileD)

lemma strip_fixed:
  assumes "x \<noteq> []" and "\<not> is_space (hd x)" and "\<not> is_space (last x)"
  shows "strip x = x"
proof -
  have a: "dropWhile is_space x = x"
    using assms(2) by (simp add: dropWhile_eq_self_iff)
  have "\<not> is_space (hd (rev x))"
    using assms(1,3) by (simp add: hd_rev)
  then have b: "dropWhile is_space (rev x) = rev x"
    by (simp add: dropWhile_eq_self_iff)
  show ?thesis by (simp add: strip_def a b)
qed

lemma strip_ends:
  assumes "strip s \<noteq> []"
  shows "\<not> is_space (hd (strip s))" and "\<not> is_space (last (strip s))"
proof -
  let ?t = "dropWhile is_space s"
  let ?u = "dropWhile is_space (rev ?t)"
  from assms have u: "?u \<noteq> []" by (simp add: strip_def del: dropWhile_eq_Nil_conv)
  then have "\<not> is_space (hd ?u)" by (rule hd_dropWhile)
  then show "\<not> is_space (last (strip s))" using u by (simp add: strip_def last_rev)
  have t: "?t \<noteq> []"
  proof
    assume "?t = []"
    then have "?u = []" by (simp del: dropWhile_eq_Nil_conv)
    with u show False by simp
  qed
  then have ht: "\<not> is_space (hd ?t)" by (rule hd_dropWhile)
  have "hd (strip s) = last ?u" using u by (simp add: strip_def hd_rev)
  also have "\<dots> = last (rev ?t)"
  proof (rule dropWhile_last)
    show "hd ?t \<in> set (rev ?t)" using t by simp
    show "\<not> is_space (hd ?t)" by (rule ht)
  qed
  also have "\<dots> = hd ?t" using t by (simp add: last_rev)
  finally show "\<not> is_space (hd (strip s))" using ht by simp
qed

lemma strip_strip: "strip (strip s) = strip s"
proof (cases "strip s = []")
  case True
  have "strip [] = []" by (simp add: strip_def)
  with True show ?thesis by simp
next
  case False
  then show ?thesis by (simp add: strip_fixed strip_ends)
qed

lemma strip_eq_self_iff: "strip x = x \<longleftrightarrow> x = [] \<or> (\<not> is_space (hd x) \<and> \<not> is_space (last x))"
proof (cases "x = []")
  case True
  then show ?thesis by (simp add: strip_def)
next
  case False
  show ?thesis
  proof
    assume e: "strip x = x"
    with False have "strip x \<noteq> []" by simp
    from strip_ends [OF this] e show "x = [] \<or> (\<not> is_space (hd x) \<and> \<not> is_space (last x))" by simp
  next
    assume "x = [] \<or> (\<not> is_space (hd x) \<and> \<not> is_space (last x))"
    with False show "strip x = x" by (simp add: strip_fixed)
  qed
qed

lemma strip_space_Cons: "strip (CHR '' '' # x) = strip x"
  by (simp add: strip_def is_space_def)

lemma Cons_join: "c # join sep (y # ys) = join sep ((c # y) # ys)"
  by (cases ys) auto

lemma split_join:
  "\<forall>y \<in> set (x # xs). CHR '','' \<notin> set y \<Longrightarrow>
   split CHR '','' (join '', '' (x # xs)) = x # map ((#) CHR '' '') xs"
proof (induction xs arbitrary: x)
  case Nil
  then show ?case by (simp add: split_no_sep)
next
  case (Cons y ys)
  have "join '', '' (x # y # ys) = x @ CHR '','' # join '', '' ((CHR '' '' # y) # ys)"
    by (simp add: Cons_join [symmetric])
  moreover have "split CHR '','' (join '', '' ((CHR '' '' # y) # ys))
      = (CHR '' '' # y) # map ((#) CHR '' '') ys"
    using Cons.prems by (intro Cons.IH) auto
  ultimately show ?case using Cons.prems by (simp add: split_append_sep del: join.simps)
qed

lemma parse_join:
  assumes "\<forall>y \<in> set xs. clean y"
  shows "map strip (filter (\<lambda>item. strip item \<noteq> []) (split CHR '','' (join '', '' xs))) = xs"
proof (cases xs)
  case Nil
  then show ?thesis by (simp add: strip_def)
next
  case (Cons x xs')
  with assms have sp: "split CHR '','' (join '', '' xs) = x # map ((#) CHR '' '') xs'"
    by (simp add: split_join clean_def del: join.simps)
  have "filter (\<lambda>item. strip item \<noteq> []) (map ((#) CHR '' '') xs') = map ((#) CHR '' '') xs'"
    using assms Cons by (auto simp add: filter_id_conv strip_space_Cons clean_def)
  moreover have "map strip (map ((#) CHR '' '') xs') = xs'"
    using assms Cons by (auto simp add: map_idI strip_space_Cons clean_def)
  ultimately show ?thesis using assms Cons sp by (simp add: clean_def del: join.simps)
qed

lemma clean_get_aircraft_list: "y \<in> set (get_aircraft_list p) \<Longrightarrow> clean y"
  using set_strip
  by (auto simp add: get_aircraft_list_def clean_def strip_strip
      dest!: split_pieces_no_sep split: if_splits)

lemma join_not_Nil: "x \<noteq> [] \<Longrightarrow> join sep (xs @ [x]) \<noteq> []"
  by (induction sep xs rule: join.induct) auto

lemma get_aircraft_list_add:
  assumes "clean a" and "a \<notin> set (get_aircraft_list p)"
  shows "get_aircraft_list (add_aircraft p a) = get_aircraft_list p @ [a]"
proof -
  have ne: "join '', '' (get_aircraft_list p @ [a]) \<noteq> []"
    using assms(1) by (intro join_not_Nil) (simp add: clean_def)
  have cl: "\<forall>y \<in> set (get_aircraft_list p @ [a]). clean y"
    using assms(1) clean_get_aircraft_list by auto
  have "get_aircraft_list (p\<lparr>aircraft_owned := join '', '' (get_aircraft_list p @ [a])\<rparr>)
      = get_aircraft_list p @ [a]"
    unfolding get_aircraft_list_def [of "p\<lparr>aircraft_owned := _\<rparr>"]
    using ne parse_join [OF cl] by simp
  with assms(2) show ?thesis by (simp add: add_aircraft_def Let_def)
qed


subsection \<open>The catalogue's ids\<close>

lemma clean_iff: "clean x \<longleftrightarrow> x \<noteq> [] \<and> CHR '','' \<notin> set x \<and> \<not> is_space (hd x) \<and> \<not> is_space (last x)"
  by (auto simp add: clean_def strip_eq_self_iff)

lemma find_in_category_mem:
  "find_in_category items i = Some item \<Longrightarrow> i \<in> item_id ` set items"
  by (induction items) (auto split: if_splits)

lemma find_in_shop_mem:
  "find_in_shop shop i = Some item \<Longrightarrow> i \<in> item_id ` (\<Union>c \<in> set shop. set (snd c))"
  by (induction shop i rule: find_in_shop.induct)
    (auto split: option.splits dest: find_in_category_mem)

text \<open>
  The search finds exactly the items of the catalogue: nothing for an id no item has, and
  the item itself for the id of any item, in whichever category it stands, since no two
  items share an id.
\<close>

lemma find_in_category_None:
  "find_in_category items i = None \<longleftrightarrow> i \<notin> set (map item_id items)"
  by (induction items) auto

lemma find_in_category_Some:
  "distinct (map item_id items) \<Longrightarrow> item \<in> set items \<Longrightarrow>
   find_in_category items (item_id item) = Some item"
  by (induction items) (auto simp add: rev_image_eqI)

lemma find_in_shop_None:
  "find_in_shop shop i = None \<longleftrightarrow> i \<notin> set (map item_id (concat (map snd shop)))"
proof (induction shop i rule: find_in_shop.induct)
  case (1 i)
  then show ?case by simp
next
  case (2 cat items rest i)
  show ?case
  proof (cases "find_in_category items i")
    case None
    then have "i \<notin> set (map item_id items)" using find_in_category_None by blast
    with None 2 show ?thesis by auto
  next
    case (Some item)
    then have "i \<in> item_id ` set items" by (rule find_in_category_mem)
    with Some show ?thesis by auto
  qed
qed

lemma find_in_shop_Some:
  "distinct (map item_id (concat (map snd shop))) \<Longrightarrow> item \<in> set (concat (map snd shop)) \<Longrightarrow>
   find_in_shop shop (item_id item) = Some item"
proof (induction shop)
  case Nil
  then show ?case by simp
next
  case (Cons c shop)
  obtain cat items where c: "c = (cat, items)" by (cases c)
  from Cons.prems(1) c have d1: "distinct (map item_id items)"
    and d2: "distinct (map item_id (concat (map snd shop)))"
    and d3: "set (map item_id items) \<inter> set (map item_id (concat (map snd shop))) = {}"
    by simp_all
  show ?case
  proof (cases "item \<in> set items")
    case True
    with d1 show ?thesis by (simp add: c find_in_category_Some)
  next
    case False
    with Cons.prems(2) c have m: "item \<in> set (concat (map snd shop))" by simp
    then have "item_id item \<in> set (map item_id (concat (map snd shop)))" by simp
    with d3 have "item_id item \<notin> set (map item_id items)" by blast
    then have "find_in_category items (item_id item) = None"
      using find_in_category_None by blast
    with Cons.IH [OF d2 m] show ?thesis by (simp add: c)
  qed
qed

lemma SHOP_ITEMS_ids:
  "map item_id (concat (map snd SHOP_ITEMS)) =
     [''boeing_767'', ''boeing_777'', ''airbus_a330'', ''boeing_747'',
      ''first_officer'', ''captain'', ''check_airman'',
      ''cargo_express'', ''international_freight'', ''emergency_medical'']"
  by (simp add: SHOP_ITEMS_def)

lemma SHOP_ITEMS_distinct: "distinct (map item_id (concat (map snd SHOP_ITEMS)))"
  unfolding SHOP_ITEMS_ids by simp

lemma find_item_None:
  "i \<notin> set (map item_id (concat (map snd SHOP_ITEMS))) \<Longrightarrow> find_item i = None"
  unfolding find_item_def using find_in_shop_None by blast

lemma find_item_Some:
  "item \<in> set (concat (map snd SHOP_ITEMS)) \<Longrightarrow> find_item (item_id item) = Some item"
  unfolding find_item_def by (rule find_in_shop_Some [OF SHOP_ITEMS_distinct])

lemma find_item_clean: "find_item i = Some item \<Longrightarrow> clean i"
proof -
  assume "find_item i = Some item"
  then have "i \<in> item_id ` (\<Union>c \<in> set SHOP_ITEMS. set (snd c))"
    unfolding find_item_def by (rule find_in_shop_mem)
  moreover have "\<forall>x \<in> item_id ` (\<Union>c \<in> set SHOP_ITEMS. set (snd c)). clean x"
    by (simp add: SHOP_ITEMS_def clean_iff is_space_def)
  ultimately show "clean i" by blast
qed

lemma add_aircraft_fields:
  "balance (add_aircraft p a) = balance p" "hours (add_aircraft p a) = hours p"
  "completed_flights (add_aircraft p a) = completed_flights p"
  "cargo_delivered (add_aircraft p a) = cargo_delivered p"
  by (simp_all add: add_aircraft_def Let_def)

lemma get_aircraft_list_balance [simp]:
  "get_aircraft_list (p\<lparr>balance := b\<rparr>) = get_aircraft_list p"
  by (simp add: get_aircraft_list_def)

lemma sample_list: "get_aircraft_list sample_pilot = [''boeing_767'', ''boeing_777'']"
  by (simp add: get_aircraft_list_def sample_pilot_def strip_def is_space_def)

subsection \<open>The owned-aircraft set through its string encoding\<close>

text \<open>
  C10 (as amended). For every aircraft id without a comma that is not empty and has no
  whitespace at either end, the ids listed after \<^verbatim>\<open>add_aircraft(id)\<close> are the ids listed
  before together with the id, so the id is a member. And for every id, calling
  \<^verbatim>\<open>add_aircraft(id)\<close> when the id is already listed leaves the pilot, \<^verbatim>\<open>aircraft_owned\<close>
  included, unchanged.
\<close>

theorem add_aircraft_member:
  "(CHR '','' \<notin> set a \<and> a \<noteq> [] \<and> strip a = a
      \<longrightarrow> set (get_aircraft_list (add_aircraft p a)) = insert a (set (get_aircraft_list p)))
   \<and> (a \<in> set (get_aircraft_list p) \<longrightarrow> add_aircraft p a = p)"
proof (intro conjI impI)
  assume "a \<in> set (get_aircraft_list p)"
  then show "add_aircraft p a = p" by (simp add: add_aircraft_def)
next
  assume "CHR '','' \<notin> set a \<and> a \<noteq> [] \<and> strip a = a"
  then have c: "clean a" by (simp add: clean_def)
  show "set (get_aircraft_list (add_aircraft p a)) = insert a (set (get_aircraft_list p))"
  proof (cases "a \<in> set (get_aircraft_list p)")
    case True
    then show ?thesis by (auto simp add: add_aircraft_def)
  next
    case False
    with c show ?thesis by (simp add: get_aircraft_list_add)
  qed
qed

theorem add_aircraft_member_witness:
  "set (get_aircraft_list (add_aircraft sample_pilot ''boeing_747''))
     = {''boeing_747'', ''boeing_767'', ''boeing_777''}
   \<and> add_aircraft sample_pilot ''boeing_767'' = sample_pilot"
proof -
  have "strip ''boeing_747'' = ''boeing_747''" by (simp add: strip_def is_space_def)
  with add_aircraft_member [of "''boeing_747''" sample_pilot]
  have a: "set (get_aircraft_list (add_aircraft sample_pilot ''boeing_747''))
     = {''boeing_747'', ''boeing_767'', ''boeing_777''}" by (simp add: sample_list)
  from add_aircraft_member [of "''boeing_767''" sample_pilot]
  have b: "add_aircraft sample_pilot ''boeing_767'' = sample_pilot" by (simp add: sample_list)
  from a b show ?thesis by simp
qed

text \<open>
  The claim as first stated covers every id without a comma. An id with a leading space
  is stored with the space and listed without it: after the call the id itself is not a
  member of the list.
\<close>

theorem add_aircraft_leading_space:
  "CHR '','' \<notin> set '' boeing_747''
   \<and> '' boeing_747'' \<notin> set (get_aircraft_list (add_aircraft sample_pilot '' boeing_747''))
   \<and> get_aircraft_list (add_aircraft sample_pilot '' boeing_747'')
       = [''boeing_767'', ''boeing_777'', ''boeing_747'']"
proof -
  have "add_aircraft sample_pilot '' boeing_747''
      = sample_pilot\<lparr>aircraft_owned := ''boeing_767, boeing_777,  boeing_747''\<rparr>"
    by (simp add: add_aircraft_def sample_list)
  moreover have "get_aircraft_list (sample_pilot\<lparr>aircraft_owned := ''boeing_767, boeing_777,  boeing_747''\<rparr>)
      = [''boeing_767'', ''boeing_777'', ''boeing_747'']"
    by (simp add: get_aircraft_list_def strip_def is_space_def)
  ultimately show ?thesis by simp
qed

subsection \<open>Purchase\<close>

text \<open>
  C6. For a session naming an existing pilot, \<^verbatim>\<open>purchase\<close> checks in this order: an id
  that no item of the catalogue \<^verbatim>\<open>SHOP_ITEMS\<close> has is answered \<^verbatim>\<open>Item not found\<close>; the
  id of a catalogue item (of any category) that is already in the pilot's owned list is
  answered \<^verbatim>\<open>You already own\<close>; otherwise a balance below the item's price is answered
  \<^verbatim>\<open>Insufficient funds\<close>; each of these leaves the database unchanged. Otherwise (balance
  at least the price, equality included) the purchase succeeds: only this pilot's row
  changes, the balance drops by exactly the price and the owned set is the old one with
  the id added.
\<close>

theorem purchase_outcomes:
  assumes "pilots d pid = Some p"
  shows "(i \<notin> set (map item_id (concat (map snd SHOP_ITEMS))) \<longrightarrow>
           dispatch_request d (Some pid, now, Purchase i) = (Redirect_shop Item_not_found, d))
   \<and> (\<forall>item. item \<in> set (concat (map snd SHOP_ITEMS)) \<and> item_id item = i \<longrightarrow>
        (i \<in> set (get_aircraft_list p) \<longrightarrow>
           dispatch_request d (Some pid, now, Purchase i)
             = (Redirect_shop (Already_own (item_name item)), d))
      \<and> (i \<notin> set (get_aircraft_list p) \<and> balance p < price item \<longrightarrow>
           dispatch_request d (Some pid, now, Purchase i)
             = (Redirect_shop (Insufficient_funds (price item) (balance p)), d))
      \<and> (i \<notin> set (get_aircraft_list p) \<and> price item \<le> balance p \<longrightarrow>
           (\<exists>p'. dispatch_request d (Some pid, now, Purchase i)
                  = (Redirect_shop (Purchased (item_name item) (price item)),
                     d\<lparr>pilots := (pilots d)(pid \<mapsto> p')\<rparr>)
              \<and> balance p' = balance p - price item
              \<and> set (get_aircraft_list p') = insert i (set (get_aircraft_list p))
              \<and> hours p' = hours p
              \<and> completed_flights p' = completed_flights p
              \<and> cargo_delivered p' = cargo_delivered p)))"
proof (intro conjI allI impI)
  assume "i \<notin> set (map item_id (concat (map snd SHOP_ITEMS)))"
  then have "find_item i = None" by (rule find_item_None)
  with assms show "dispatch_request d (Some pid, now, Purchase i) = (Redirect_shop Item_not_found, d)"
    by (simp add: dispatch_request.simps purchase_def clear_invalid_sessions_def)
next
  fix item
  assume "item \<in> set (concat (map snd SHOP_ITEMS)) \<and> item_id item = i"
  then have "find_item i = Some item" using find_item_Some by blast
  moreover assume "i \<in> set (get_aircraft_list p)"
  ultimately show "dispatch_request d (Some pid, now, Purchase i)
             = (Redirect_shop (Already_own (item_name item)), d)"
    using assms by (simp add: dispatch_request.simps purchase_def clear_invalid_sessions_def)
next
  fix item
  assume "item \<in> set (concat (map snd SHOP_ITEMS)) \<and> item_id item = i"
  then have "find_item i = Some item" using find_item_Some by blast
  moreover assume "i \<notin> set (get_aircraft_list p) \<and> balance p < price item"
  ultimately show "dispatch_request d (Some pid, now, Purchase i)
             = (Redirect_shop (Insufficient_funds (price item) (balance p)), d)"
    using assms by (simp add: dispatch_request.simps purchase_def clear_invalid_sessions_def)
next
  fix item
  assume "item \<in> set (concat (map snd SHOP_ITEMS)) \<and> item_id item = i"
  then have f: "find_item i = Some item" using find_item_Some by blast
  assume b: "i \<notin> set (get_aircraft_list p) \<and> price item \<le> balance p"
  let ?p' = "add_aircraft (p\<lparr>balance := balance p - price item\<rparr>) i"
  have "dispatch_request d (Some pid, now, Purchase i)
                  = (Redirect_shop (Purchased (item_name item) (price item)),
                     d\<lparr>pilots := (pilots d)(pid \<mapsto> ?p')\<rparr>)"
    using assms f b by (simp add: dispatch_request.simps purchase_def clear_invalid_sessions_def)
  moreover have "set (get_aircraft_list ?p') = insert i (set (get_aircraft_list p))"
    using b find_item_clean [OF f] by (simp add: get_aircraft_list_add)
  ultimately show "\<exists>p'. dispatch_request d (Some pid, now, Purchase i)
                  = (Redirect_shop (Purchased (item_name item) (price item)),
                     d\<lparr>pilots := (pilots d)(pid \<mapsto> p')\<rparr>)
              \<and> balance p' = balance p - price item
              \<and> set (get_aircraft_list p') = insert i (set (get_aircraft_list p))
              \<and> hours p' = hours p
              \<and> completed_flights p' = completed_flights p
              \<and> cargo_delivered p' = cargo_delivered p"
    by (intro exI [of _ ?p']) (simp add: add_aircraft_fields)
qed

lemma catalogue_examples:
  "\<lparr>item_id = ''boeing_767'', item_name = ''Boeing 767-300F'', price = 25000\<rparr>
     \<in> set (concat (map snd SHOP_ITEMS))"
  "\<lparr>item_id = ''boeing_747'', item_name = ''Boeing 747-8F'', price = 45000\<rparr>
     \<in> set (concat (map snd SHOP_ITEMS))"
  "\<lparr>item_id = ''captain'', item_name = ''Captain Certification'', price = 12000\<rparr>
     \<in> set (concat (map snd SHOP_ITEMS))"
  "\<lparr>item_id = ''emergency_medical'', item_name = ''Emergency Medical Transport'', price = 6000\<rparr>
     \<in> set (concat (map snd SHOP_ITEMS))"
  by (simp_all add: SHOP_ITEMS_def)

text \<open>
  The examples: an unknown id; an aircraft the seeded pilot owns; the most expensive
  aircraft for a pilot one unit short, and for the seeded pilot, whose balance is exactly
  its price; a role and a mission, from the second and the third category.
\<close>

theorem purchase_outcomes_witness:
  "dispatch_request initial_db (Some 1, 0, Purchase ''concorde'')
     = (Redirect_shop Item_not_found, initial_db)
   \<and> dispatch_request initial_db (Some 1, 0, Purchase ''boeing_767'')
     = (Redirect_shop (Already_own ''Boeing 767-300F''), initial_db)
   \<and> dispatch_request poor_db (Some 1, 0, Purchase ''boeing_747'')
     = (Redirect_shop (Insufficient_funds 45000 44999), poor_db)
   \<and> fst (dispatch_request initial_db (Some 1, 0, Purchase ''boeing_747''))
     = Redirect_shop (Purchased ''Boeing 747-8F'' 45000)
   \<and> map_option balance
       (pilots (snd (dispatch_request initial_db (Some 1, 0, Purchase ''boeing_747''))) 1) = Some 0
   \<and> map_option (set \<circ> get_aircraft_list)
       (pilots (snd (dispatch_request initial_db (Some 1, 0, Purchase ''boeing_747''))) 1)
     = Some {''boeing_747'', ''boeing_767'', ''boeing_777''}
   \<and> fst (dispatch_request initial_db (Some 1, 0, Purchase ''captain''))
     = Redirect_shop (Purchased ''Captain Certification'' 12000)
   \<and> map_option balance
       (pilots (snd (dispatch_request initial_db (Some 1, 0, Purchase ''captain''))) 1)
     = Some 33000
   \<and> fst (dispatch_request initial_db (Some 1, 0, Purchase ''emergency_medical''))
     = Redirect_shop (Purchased ''Emergency Medical Transport'' 6000)
   \<and> map_option (set \<circ> get_aircraft_list)
       (pilots (snd (dispatch_request initial_db (Some 1, 0, Purchase ''emergency_medical''))) 1)
     = Some {''emergency_medical'', ''boeing_767'', ''boeing_777''}"
proof -
  let ?b767 = "\<lparr>item_id = ''boeing_767'', item_name = ''Boeing 767-300F'', price = 25000\<rparr>"
  let ?b747 = "\<lparr>item_id = ''boeing_747'', item_name = ''Boeing 747-8F'', price = 45000\<rparr>"
  let ?capt = "\<lparr>item_id = ''captain'', item_name = ''Captain Certification'', price = 12000\<rparr>"
  let ?emed = "\<lparr>item_id = ''emergency_medical'', item_name = ''Emergency Medical Transport'',
                 price = 6000\<rparr>"
  have p: "pilots initial_db 1 = Some sample_pilot" by (simp add: initial_db_def)
  have q: "pilots poor_db 1 = Some (sample_pilot\<lparr>balance := 44999\<rparr>)"
    by (simp add: poor_db_def)
  have b: "balance sample_pilot = 45000" by (simp add: sample_pilot_def)
  have n: "''concorde'' \<notin> set (map item_id (concat (map snd SHOP_ITEMS)))"
    unfolding SHOP_ITEMS_ids by simp
  from purchase_outcomes [OF p, of "''concorde''" 0, THEN conjunct1] n
  have 1: "dispatch_request initial_db (Some 1, 0, Purchase ''concorde'')
     = (Redirect_shop Item_not_found, initial_db)"
    by (rule mp)
  from purchase_outcomes [OF p, of "''boeing_767''" 0, THEN conjunct2, THEN spec, of ?b767]
    catalogue_examples(1)
  have 2: "dispatch_request initial_db (Some 1, 0, Purchase ''boeing_767'')
     = (Redirect_shop (Already_own ''Boeing 767-300F''), initial_db)"
    by (simp add: sample_list)
  from purchase_outcomes [OF q, of "''boeing_747''" 0, THEN conjunct2, THEN spec, of ?b747]
    catalogue_examples(2)
  have 3: "dispatch_request poor_db (Some 1, 0, Purchase ''boeing_747'')
     = (Redirect_shop (Insufficient_funds 45000 44999), poor_db)"
    by (simp add: sample_list)
  from purchase_outcomes [OF p, of "''boeing_747''" 0, THEN conjunct2, THEN spec, of ?b747]
    catalogue_examples(2)
  obtain p4 where "dispatch_request initial_db (Some 1, 0, Purchase ''boeing_747'')
      = (Redirect_shop (Purchased ''Boeing 747-8F'' 45000),
         initial_db\<lparr>pilots := (pilots initial_db)(1 \<mapsto> p4)\<rparr>)"
    and "balance p4 = 0"
    and "set (get_aircraft_list p4) = {''boeing_747'', ''boeing_767'', ''boeing_777''}"
    by (auto simp add: sample_list b)
  then have 4: "fst (dispatch_request initial_db (Some 1, 0, Purchase ''boeing_747''))
     = Redirect_shop (Purchased ''Boeing 747-8F'' 45000)
   \<and> map_option balance
       (pilots (snd (dispatch_request initial_db (Some 1, 0, Purchase ''boeing_747''))) 1) = Some 0
   \<and> map_option (set \<circ> get_aircraft_list)
       (pilots (snd (dispatch_request initial_db (Some 1, 0, Purchase ''boeing_747''))) 1)
     = Some {''boeing_747'', ''boeing_767'', ''boeing_777''}"
    by simp
  from purchase_outcomes [OF p, of "''captain''" 0, THEN conjunct2, THEN spec, of ?capt]
    catalogue_examples(3)
  obtain p5 where "dispatch_request initial_db (Some 1, 0, Purchase ''captain'')
      = (Redirect_shop (Purchased ''Captain Certification'' 12000),
         initial_db\<lparr>pilots := (pilots initial_db)(1 \<mapsto> p5)\<rparr>)"
    and "balance p5 = 33000"
    by (auto simp add: sample_list b)
  then have 5: "fst (dispatch_request initial_db (Some 1, 0, Purchase ''captain''))
     = Redirect_shop (Purchased ''Captain Certification'' 12000)
   \<and> map_option balance
       (pilots (snd (dispatch_request initial_db (Some 1, 0, Purchase ''captain''))) 1)
     = Some 33000"
    by simp
  from purchase_outcomes [OF p, of "''emergency_medical''" 0, THEN conjunct2, THEN spec, of ?emed]
    catalogue_examples(4)
  obtain p6 where "dispatch_request initial_db (Some 1, 0, Purchase ''emergency_medical'')
      = (Redirect_shop (Purchased ''Emergency Medical Transport'' 6000),
         initial_db\<lparr>pilots := (pilots initial_db)(1 \<mapsto> p6)\<rparr>)"
    and "set (get_aircraft_list p6) = {''emergency_medical'', ''boeing_767'', ''boeing_777''}"
    by (auto simp add: sample_list b)
  then have 6: "fst (dispatch_request initial_db (Some 1, 0, Purchase ''emergency_medical''))
     = Redirect_shop (Purchased ''Emergency Medical Transport'' 6000)
   \<and> map_option (set \<circ> get_aircraft_list)
       (pilots (snd (dispatch_request initial_db (Some 1, 0, Purchase ''emergency_medical''))) 1)
     = Some {''emergency_medical'', ''boeing_767'', ''boeing_777''}"
    by simp
  from 1 2 3 4 5 6 show ?thesis by simp
qed

subsection \<open>Monotone counters under flight completion\<close>

lemma int_flight_hours_nonneg:
  assumes "- 3600 < n"
  shows "0 \<le> int_flight_hours n"
proof (cases "0 \<le> n")
  case True
  then show ?thesis by (simp add: int_flight_hours_def pos_imp_zdiv_nonneg_iff)
next
  case False
  with assms have "(- n) div 3600 = 0" by (intro div_pos_pos_trivial) auto
  with False show ?thesis by (simp add: int_flight_hours_def)
qed

lemma end_step_monotone:
  assumes "pilots d pid = Some p"
  shows "\<exists>p'. pilots (snd (dispatch_request d (s, now, End lid duration))) pid = Some p'
     \<and> cargo_delivered p \<le> cargo_delivered p'
     \<and> completed_flights p \<le> completed_flights p'
     \<and> (- 3600 < reported_duration (s, now, End lid duration) \<longrightarrow> hours p \<le> hours p')"
proof (cases duration)
  case None
  with assms show ?thesis
    by (auto simp add: dispatch_request.simps end_flight_def clear_invalid_sessions_def Let_def
      int_flight_hours_def split: option.splits)
next
  case (Some n)
  with assms show ?thesis
    by (auto simp add: dispatch_request.simps end_flight_def clear_invalid_sessions_def Let_def
      int_flight_hours_nonneg split: option.splits)
qed

text \<open>
  C8 (as amended). Over every sequence of \<^verbatim>\<open>end\<close> requests (any sessions, any logs), every
  pilot stays in the table, and the pilot's \<^verbatim>\<open>cargo_delivered\<close> and \<^verbatim>\<open>completed_flights\<close>
  do not decrease, for every reported duration; \<^verbatim>\<open>hours\<close> does not decrease provided every
  reported duration is greater than \<open>-3600\<close> (in particular when none is negative).
\<close>

theorem end_only_monotone:
  assumes "\<forall>r \<in> set rs. end_request r" and "pilots d pid = Some p"
  shows "\<exists>p'. pilots (run d rs) pid = Some p'
     \<and> cargo_delivered p \<le> cargo_delivered p'
     \<and> completed_flights p \<le> completed_flights p'
     \<and> ((\<forall>r \<in> set rs. - 3600 < reported_duration r) \<longrightarrow> hours p \<le> hours p')"
  using assms
proof (induction rs arbitrary: d p)
  case Nil
  then show ?case by simp
next
  case (Cons r rs)
  obtain s now rt where r: "r = (s, now, rt)" by (cases r)
  with Cons.prems(1) obtain lid duration where rt: "rt = End lid duration"
    by (cases rt) auto
  from end_step_monotone [OF Cons.prems(2), of s now lid duration]
  obtain p1 where p1: "pilots (snd (dispatch_request d r)) pid = Some p1"
    and m1: "cargo_delivered p \<le> cargo_delivered p1" "completed_flights p \<le> completed_flights p1"
      "- 3600 < reported_duration r \<longrightarrow> hours p \<le> hours p1"
    unfolding r rt by blast
  from Cons.prems(1) have "\<forall>r \<in> set rs. end_request r" by simp
  from Cons.IH [OF this p1]
  obtain p' where p': "pilots (run (snd (dispatch_request d r)) rs) pid = Some p'"
    and m2: "cargo_delivered p1 \<le> cargo_delivered p'" "completed_flights p1 \<le> completed_flights p'"
      "(\<forall>r \<in> set rs. - 3600 < reported_duration r) \<longrightarrow> hours p1 \<le> hours p'"
    by blast
  from p' m1 m2 show ?case by auto
qed


theorem end_only_monotone_witness:
  "\<exists>p'. pilots (run tracked_db [(Some 1, 9, End 1 (Some 7200)), (Some 1, 10, End 1 (Some (- 10)))]) 1
          = Some p'
     \<and> cargo_delivered sample_pilot \<le> cargo_delivered p'
     \<and> completed_flights sample_pilot \<le> completed_flights p'
     \<and> hours sample_pilot \<le> hours p'
     \<and> hours p' = 2"
proof -
  let ?rs = "[(Some 1, 9, End 1 (Some 7200)), (Some 1, 10, End 1 (Some (- 10)))]"
  have "\<forall>r \<in> set ?rs. end_request r" by simp
  from end_only_monotone [OF this tracked_db_pilot]
  obtain p' where p': "pilots (run tracked_db ?rs) 1 = Some p'"
    and m: "cargo_delivered sample_pilot \<le> cargo_delivered p'"
      "completed_flights sample_pilot \<le> completed_flights p'"
      "hours sample_pilot \<le> hours p'"
    by auto
  have "map_option hours (pilots (run tracked_db ?rs) 1) = Some 2"
    by (simp add: end_authorized [OF tracked_db_pilot tracked_db_log tracked_log_owner]
        end_authorized [where pid = 1 and p = "sample_pilot\<lparr>hours := h, completed_flights := c,
          cargo_delivered := g, balance := b\<rparr>" for h c g b]
        tracked_log_def int_flight_hours_def sample_pilot_def pilot_fits_def
        fits_integer_column_def)
  with p' have "hours p' = 2" by simp
  with p' m show ?thesis by simp
qed

text \<open>
  The claim as first stated covers every duration a client can report. One \<^verbatim>\<open>end\<close>
  request reporting \<open>-3600\<close> seconds takes an hour off the pilot's total.
\<close>

theorem end_negative_hour:
  "map_option hours (pilots tracked_db 1) = Some 0
   \<and> map_option hours (pilots (run tracked_db [(Some 1, 9, End 1 (Some (- 3600)))]) 1) = Some (- 1)"
  by (simp add: end_authorized [OF tracked_db_pilot tracked_db_log tracked_log_owner]
      tracked_db_pilot int_flight_hours_def sample_pilot_def pilot_fits_def
      fits_integer_column_def)

subsection \<open>Completion time and status\<close>

lemma completed_has_time_step:
  assumes "completed_has_time d"
  shows "completed_has_time (snd (dispatch_request d r))"
proof -
  obtain s now rt where r: "r = (s, now, rt)" by (cases r)
  show ?thesis
  proof (cases rt)
    case (Purchase i)
    with assms r show ?thesis
      by (auto simp add: dispatch_request.simps purchase_def completed_has_time_def
          split: option.splits)
  next
    case (Add_flight_log f)
    with assms r show ?thesis
      by (auto simp add: dispatch_request.simps add_flight_log_def completed_has_time_def Let_def
          split: option.splits if_splits)
  next
    case (Pause lid)
    with assms r show ?thesis
      by (auto simp add: dispatch_request.simps pause_flight_def completed_has_time_def
          split: option.splits if_splits)
  next
    case (Resume lid)
    with assms r show ?thesis
      by (auto simp add: dispatch_request.simps resume_flight_def completed_has_time_def
          split: option.splits if_splits)
  next
    case (End lid duration)
    with assms r show ?thesis
      by (auto simp add: dispatch_request.simps end_flight_def completed_has_time_def Let_def
          split: option.splits if_splits)
  qed
qed

lemma completed_has_time_run: "completed_has_time d \<Longrightarrow> completed_has_time (run d rs)"
  by (induction rs arbitrary: d) (auto intro: completed_has_time_step)

text \<open>
  C2 (as amended). Start from a database without flight logs and serve any requests. Then
  every stored flight log whose status is Completed has a completion time. (The converse
  does not hold: \<^verbatim>\<open>pause\<close> and \<^verbatim>\<open>resume\<close> change the status of an ended log and keep its
  completion time.)
\<close>

theorem completed_implies_completed_at:
  assumes "logs d = Map.empty" and "logs (run d rs) lid = Some l" and "status l = ''Completed''"
  shows "completed_at l \<noteq> None"
proof -
  from assms(1) have "completed_has_time d" by (simp add: completed_has_time_def)
  then have "completed_has_time (run d rs)" by (rule completed_has_time_run)
  with assms(2,3) show ?thesis unfolding completed_has_time_def by blast
qed

lemma initial_db_tracked:
  "snd (dispatch_request initial_db (Some 1, 5, Add_flight_log sample_form)) = tracked_db"
  by (simp add: tracked_db_def)

lemma tracked_db_ended:
  "snd (dispatch_request tracked_db (Some 1, 9, End 1 (Some 3600)))
     = \<lparr>pilots = [1 \<mapsto> sample_pilot\<lparr>hours := 1, completed_flights := 1,
                         cargo_delivered := 50, balance := 45050\<rparr>],
        logs = [1 \<mapsto> tracked_log\<lparr>status := ''Completed'', flight_duration := 3600,
                         completed_at := Some 9\<rparr>],
        log_seq = 1\<rparr>"
  by (simp add: end_authorized [OF tracked_db_pilot tracked_db_log tracked_log_owner]
      int_flight_hours_def pilot_fits_def fits_integer_column_def sample_pilot_ledger)
    (simp add: tracked_db_eq sample_pilot_def)

theorem completed_implies_completed_at_witness:
  "logs (run initial_db [(Some 1, 5, Add_flight_log sample_form), (Some 1, 9, End 1 (Some 3600))]) 1
     = Some (tracked_log\<lparr>status := ''Completed'', flight_duration := 3600, completed_at := Some 9\<rparr>)
   \<and> completed_at (tracked_log\<lparr>status := ''Completed'', flight_duration := 3600,
        completed_at := Some 9\<rparr>) \<noteq> None"
proof -
  let ?rs = "[(Some 1, 5, Add_flight_log sample_form), (Some 1, 9, End 1 (Some 3600))]"
  let ?l = "tracked_log\<lparr>status := ''Completed'', flight_duration := 3600, completed_at := Some 9\<rparr>"
  have e: "logs initial_db = Map.empty" by (simp add: initial_db_def)
  have l: "logs (run initial_db ?rs) 1 = Some ?l"
    by (simp add: initial_db_tracked tracked_db_ended)
  have s: "status ?l = ''Completed''" by simp
  from completed_implies_completed_at [OF e l s] l show ?thesis by simp
qed

text \<open>
  The claim as first stated is an equivalence. After \<^verbatim>\<open>create\<close>, \<^verbatim>\<open>end\<close>, \<^verbatim>\<open>resume\<close> the
  log is In Progress and has a completion time.
\<close>

theorem resumed_log_keeps_completed_at:
  "map_option status
     (logs (run initial_db [(Some 1, 5, Add_flight_log sample_form),
                            (Some 1, 9, End 1 (Some 3600)),
                            (Some 1, 10, Resume 1)]) 1) = Some ''In Progress''
   \<and> map_option completed_at
     (logs (run initial_db [(Some 1, 5, Add_flight_log sample_form),
                            (Some 1, 9, End 1 (Some 3600)),
                            (Some 1, 10, Resume 1)]) 1) = Some (Some 9)"
  by (simp add: initial_db_tracked tracked_db_ended
      resume_authorized [where pid = 1 and lid = 1 and p = "sample_pilot\<lparr>hours := 1,
        completed_flights := 1, cargo_delivered := 50, balance := 45050\<rparr>"
        and l = "tracked_log\<lparr>status := ''Completed'', flight_duration := 3600,
          completed_at := Some 9\<rparr>"]
      tracked_log_def)

subsection \<open>Requests on a completed log\<close>

text \<open>
  C3 (as amended). A Completed log is still Completed after every \<^verbatim>\<open>end\<close> request, and
  it is untouched by every \<^verbatim>\<open>pause\<close> or \<^verbatim>\<open>resume\<close> request that is not an authorized
  request for this log. An authorized \<^verbatim>\<open>pause\<close> sets its status to Paused and an
  authorized \<^verbatim>\<open>resume\<close> sets it to In Progress: the routes do not look at the current
  status.
\<close>

theorem completed_log_transitions:
  assumes "logs d lid = Some l" and "status l = ''Completed''"
  shows "map_option status (logs (snd (dispatch_request d (s, now, End k duration))) lid)
           = Some ''Completed''
       \<and> logs (snd (dispatch_request d (s, now, Pause k))) lid
           = Some (if k = lid \<and> s = Some (pilot_id l) \<and> pilots d (pilot_id l) \<noteq> None
                   then l\<lparr>status := ''Paused''\<rparr> else l)
       \<and> logs (snd (dispatch_request d (s, now, Resume k))) lid
           = Some (if k = lid \<and> s = Some (pilot_id l) \<and> pilots d (pilot_id l) \<noteq> None
                   then l\<lparr>status := ''In Progress''\<rparr> else l)"
proof (intro conjI)
  show "map_option status (logs (snd (dispatch_request d (s, now, End k duration))) lid)
           = Some ''Completed''"
    using assms
    by (auto simp add: dispatch_request.simps end_flight_def clear_invalid_sessions_def Let_def
        split: option.splits)
  show "logs (snd (dispatch_request d (s, now, Pause k))) lid
           = Some (if k = lid \<and> s = Some (pilot_id l) \<and> pilots d (pilot_id l) \<noteq> None
                   then l\<lparr>status := ''Paused''\<rparr> else l)"
    using assms
    by (auto simp add: dispatch_request.simps pause_flight_def clear_invalid_sessions_def
        split: option.splits)
  show "logs (snd (dispatch_request d (s, now, Resume k))) lid
           = Some (if k = lid \<and> s = Some (pilot_id l) \<and> pilots d (pilot_id l) \<noteq> None
                   then l\<lparr>status := ''In Progress''\<rparr> else l)"
    using assms
    by (auto simp add: dispatch_request.simps resume_flight_def clear_invalid_sessions_def
        split: option.splits)
qed

theorem completed_log_transitions_witness:
  "map_option status
     (logs (snd (dispatch_request (snd (dispatch_request tracked_db (Some 1, 9, End 1 (Some 3600))))
        (Some 1, 10, End 1 (Some 60)))) 1) = Some ''Completed''
   \<and> map_option status
     (logs (snd (dispatch_request (snd (dispatch_request tracked_db (Some 1, 9, End 1 (Some 3600))))
        (Some 2, 10, Pause 1))) 1) = Some ''Completed''
   \<and> map_option status
     (logs (snd (dispatch_request (snd (dispatch_request tracked_db (Some 1, 9, End 1 (Some 3600))))
        (Some 1, 10, Resume 1))) 1) = Some ''In Progress''"
proof -
  let ?d = "snd (dispatch_request tracked_db (Some 1, 9, End 1 (Some 3600)))"
  let ?l = "tracked_log\<lparr>status := ''Completed'', flight_duration := 3600, completed_at := Some 9\<rparr>"
  have l: "logs ?d 1 = Some ?l" by (simp add: tracked_db_ended)
  have s: "status ?l = ''Completed''" by simp
  have p: "pilots ?d 1 \<noteq> None" by (simp add: tracked_db_ended)
  have o: "pilot_id ?l = 1" by (simp add: tracked_log_def)
  from completed_log_transitions [OF l s, of "Some 1" 10 1 "Some 60"]
  have a: "map_option status (logs (snd (dispatch_request ?d (Some 1, 10, End 1 (Some 60)))) 1)
      = Some ''Completed''" by simp
  from completed_log_transitions [OF l s, of "Some 2" 10 1 None] o
  have b: "map_option status (logs (snd (dispatch_request ?d (Some 2, 10, Pause 1))) 1)
      = Some ''Completed''" by simp
  from completed_log_transitions [OF l s, of "Some 1" 10 1 None] o p
  have c: "map_option status (logs (snd (dispatch_request ?d (Some 1, 10, Resume 1))) 1)
      = Some ''In Progress''" by simp
  from a b c show ?thesis by simp
qed

text \<open>
  The claim as first stated lets no request move a log out of Completed. After
  \<^verbatim>\<open>end\<close> the log is Completed, and the owner's \<^verbatim>\<open>pause\<close> makes it Paused.
\<close>

theorem pause_leaves_completed:
  "map_option status (logs (run tracked_db [(Some 1, 9, End 1 (Some 3600))]) 1)
     = Some ''Completed''
   \<and> map_option status
       (logs (run tracked_db [(Some 1, 9, End 1 (Some 3600)), (Some 1, 10, Pause 1)]) 1)
     = Some ''Paused''"
  by (simp add: tracked_db_ended
      pause_authorized [where pid = 1 and lid = 1 and p = "sample_pilot\<lparr>hours := 1,
        completed_flights := 1, cargo_delivered := 50, balance := 45050\<rparr>"
        and l = "tracked_log\<lparr>status := ''Completed'', flight_duration := 3600,
          completed_at := Some 9\<rparr>"]
      tracked_log_def)

subsection \<open>The flight number of a new log\<close>

lemma flight_numbers_checked_step:
  assumes "flight_numbers_checked d"
  shows "flight_numbers_checked (snd (dispatch_request d r))"
proof -
  obtain s now rt where r: "r = (s, now, rt)" by (cases r)
  show ?thesis
  proof (cases rt)
    case (Purchase i)
    with assms r show ?thesis
      by (auto simp add: dispatch_request.simps purchase_def flight_numbers_checked_def
          split: option.splits)
  next
    case (Add_flight_log f)
    with assms r show ?thesis
      by (auto simp add: dispatch_request.simps add_flight_log_def flight_numbers_checked_def
          Let_def split: option.splits if_splits)
  next
    case (Pause lid)
    with assms r show ?thesis
      by (auto simp add: dispatch_request.simps pause_flight_def flight_numbers_checked_def
          split: option.splits if_splits)
  next
    case (Resume lid)
    with assms r show ?thesis
      by (auto simp add: dispatch_request.simps resume_flight_def flight_numbers_checked_def
          split: option.splits if_splits)
  next
    case (End lid duration)
    with assms r show ?thesis
      by (auto simp add: dispatch_request.simps end_flight_def flight_numbers_checked_def
          Let_def split: option.splits if_splits)
  qed
qed

lemma flight_numbers_checked_run:
  "flight_numbers_checked d \<Longrightarrow> flight_numbers_checked (run d rs)"
  by (induction rs arbitrary: d) (auto intro: flight_numbers_checked_step)

text \<open>
  C5 (as amended). For a session naming an existing pilot and a form with a flight
  number: the number passes the check if and only if it starts with \<^verbatim>\<open>GTI_\<close> and has at
  least five characters. A number that fails is answered with the format message and no
  log is created (so for \<^verbatim>\<open>ABC_1\<close>); a number that passes, in a form whose aircraft type,
  cargo type and departure time are well formed, creates a log with that number, In
  Progress, with duration 0 and no completion time (so for \<^verbatim>\<open>GTI_42\<close>). And in every
  database reached from one without logs, every stored flight number starts with
  \<^verbatim>\<open>GTI_\<close> and has at least five characters.
\<close>

theorem flight_number_check:
  assumes "pilots d pid = Some p" and "form_flight_number f = Some fn"
  shows "(\<not> (startswith fn ''GTI_'' \<and> 5 \<le> length fn) \<longrightarrow>
            dispatch_request d (Some pid, now, Add_flight_log f)
              = (Redirect_add_flight_log Flight_number_format, d))
       \<and> (startswith fn ''GTI_'' \<and> 5 \<le> length fn \<and> form_aircraft_type f \<noteq> None
            \<and> form_cargo_type f \<noteq> None \<and> form_departure_time f \<noteq> None \<longrightarrow>
            (\<exists>l. dispatch_request d (Some pid, now, Add_flight_log f)
                    = (Redirect_flight_tracker (log_seq d + 1) Flight_log_created,
                       d\<lparr>logs := (logs d)(log_seq d + 1 \<mapsto> l), log_seq := log_seq d + 1\<rparr>)
               \<and> flight_number l = fn \<and> pilot_id l = pid \<and> status l = ''In Progress''
               \<and> flight_duration l = 0 \<and> completed_at l = None))
       \<and> (\<forall>d0 rs lid l. logs d0 = Map.empty \<and> logs (run d0 rs) lid = Some l \<longrightarrow>
            startswith (flight_number l) ''GTI_'' \<and> 5 \<le> length (flight_number l))"
proof (intro conjI impI allI)
  assume "\<not> (startswith fn ''GTI_'' \<and> 5 \<le> length fn)"
  with assms show "dispatch_request d (Some pid, now, Add_flight_log f)
              = (Redirect_add_flight_log Flight_number_format, d)"
    by (auto simp add: dispatch_request.simps add_flight_log_def clear_invalid_sessions_def)
next
  assume "startswith fn ''GTI_'' \<and> 5 \<le> length fn \<and> form_aircraft_type f \<noteq> None
            \<and> form_cargo_type f \<noteq> None \<and> form_departure_time f \<noteq> None"
  with assms show "\<exists>l. dispatch_request d (Some pid, now, Add_flight_log f)
                    = (Redirect_flight_tracker (log_seq d + 1) Flight_log_created,
                       d\<lparr>logs := (logs d)(log_seq d + 1 \<mapsto> l), log_seq := log_seq d + 1\<rparr>)
               \<and> flight_number l = fn \<and> pilot_id l = pid \<and> status l = ''In Progress''
               \<and> flight_duration l = 0 \<and> completed_at l = None"
    by (auto simp add: dispatch_request.simps add_flight_log_def clear_invalid_sessions_def Let_def)
next
  fix d0 rs lid l
  assume a: "logs d0 = Map.empty \<and> logs (run d0 rs) lid = Some l"
  then have "flight_numbers_checked d0" by (simp add: flight_numbers_checked_def)
  then have "flight_numbers_checked (run d0 rs)" by (rule flight_numbers_checked_run)
  with a have "startswith (flight_number l) ''GTI_'' \<and> 5 \<le> length (flight_number l)"
    unfolding flight_numbers_checked_def by blast
  then show "startswith (flight_number l) ''GTI_''" and "5 \<le> length (flight_number l)"
    by simp_all
qed

theorem flight_number_check_witness:
  "dispatch_request initial_db
     (Some 1, 5, Add_flight_log (sample_form\<lparr>form_flight_number := Some ''ABC_1''\<rparr>))
     = (Redirect_add_flight_log Flight_number_format, initial_db)
   \<and> fst (dispatch_request initial_db (Some 1, 5, Add_flight_log sample_form))
     = Redirect_flight_tracker 1 Flight_log_created
   \<and> map_option flight_number
       (logs (snd (dispatch_request initial_db (Some 1, 5, Add_flight_log sample_form))) 1)
     = Some ''GTI_42''
   \<and> startswith ''GTI_42'' ''GTI_''"
proof -
  have p: "pilots initial_db 1 = Some sample_pilot" by (simp add: initial_db_def)
  have e: "logs initial_db = Map.empty" by (simp add: initial_db_def)
  have n: "log_seq initial_db = 0" by (simp add: initial_db_def)
  have f1: "form_flight_number (sample_form\<lparr>form_flight_number := Some ''ABC_1''\<rparr>) = Some ''ABC_1''"
    by simp
  have f2: "form_flight_number sample_form = Some ''GTI_42''" by (simp add: sample_form_def)
  from flight_number_check [OF p f1, of 5]
  have a: "dispatch_request initial_db
     (Some 1, 5, Add_flight_log (sample_form\<lparr>form_flight_number := Some ''ABC_1''\<rparr>))
     = (Redirect_add_flight_log Flight_number_format, initial_db)"
    by (simp add: startswith_def)
  from flight_number_check [OF p f2, of 5]
  have b: "fst (dispatch_request initial_db (Some 1, 5, Add_flight_log sample_form))
     = Redirect_flight_tracker 1 Flight_log_created
   \<and> map_option flight_number
       (logs (snd (dispatch_request initial_db (Some 1, 5, Add_flight_log sample_form))) 1)
     = Some ''GTI_42''"
    by (auto simp add: startswith_def sample_form_def n)
  have l: "logs (run initial_db [(Some 1, 5, Add_flight_log sample_form)]) 1 = Some tracked_log"
    by (simp add: initial_db_tracked tracked_db_log)
  from flight_number_check [OF p f2, of 5] e l
  have "startswith (flight_number tracked_log) ''GTI_''" by blast
  then have c: "startswith ''GTI_42'' ''GTI_''" by (simp add: tracked_log_def)
  from a b c show ?thesis by simp
qed

text \<open>
  The claim as first stated accepts only \<^verbatim>\<open>GTI_\<close> followed by digits. The number
  \<^verbatim>\<open>GTI_X\<close> is not of that form, and the route accepts it and stores it.
\<close>

theorem letters_after_prefix_accepted:
  "\<not> spec_gti_digits ''GTI_X''
   \<and> fst (dispatch_request initial_db
       (Some 1, 5, Add_flight_log (sample_form\<lparr>form_flight_number := Some ''GTI_X''\<rparr>)))
     = Redirect_flight_tracker 1 Flight_log_created
   \<and> map_option flight_number
       (logs (snd (dispatch_request initial_db
          (Some 1, 5, Add_flight_log (sample_form\<lparr>form_flight_number := Some ''GTI_X''\<rparr>)))) 1)
     = Some ''GTI_X''"
  by (simp add: spec_gti_digits_def is_digit_def startswith_def dispatch_request.simps
      add_flight_log_def clear_invalid_sessions_def initial_db_def sample_form_def Let_def)

end
